theory Spec2Isabelle
  imports Complex_Main
begin

section \<open>JavaScript numbers\<close>

text \<open>
  The simulation of \<^verbatim>\<open>FactoryEditor.tsx\<close> computes with JavaScript numbers.
  They are modelled by exact rationals extended with the three special values
  that the unguarded divisions of the source can produce. A finite number is the rational it
  denotes: the rounding of sums, products and quotients of doubles, their overflow and
  underflow, and the sign of zero are not modelled. The statements below therefore concern
  which branch a frame takes and values that doubles hold exactly; nothing is stated about
  the number of frames that a run takes, nor about whether it ends, since in doubles a small
  step can be absorbed by the progress it is added to.
\<close>

datatype jsnum = Num rat | PosInf | NegInf | NaN

fun js_add :: "jsnum \<Rightarrow> jsnum \<Rightarrow> jsnum" where
  "js_add NaN _ = NaN"
| "js_add _ NaN = NaN"
| "js_add (Num a) (Num b) = Num (a + b)"
| "js_add PosInf NegInf = NaN"
| "js_add NegInf PosInf = NaN"
| "js_add PosInf _ = PosInf"
| "js_add _ PosInf = PosInf"
| "js_add NegInf _ = NegInf"
| "js_add _ NegInf = NegInf"

fun js_mul :: "jsnum \<Rightarrow> jsnum \<Rightarrow> jsnum" where
  "js_mul NaN _ = NaN"
| "js_mul _ NaN = NaN"
| "js_mul (Num a) (Num b) = Num (a * b)"
| "js_mul (Num a) PosInf = (if a = 0 then NaN else if 0 < a then PosInf else NegInf)"
| "js_mul (Num a) NegInf = (if a = 0 then NaN else if 0 < a then NegInf else PosInf)"
| "js_mul PosInf (Num b) = (if b = 0 then NaN else if 0 < b then PosInf else NegInf)"
| "js_mul NegInf (Num b) = (if b = 0 then NaN else if 0 < b then NegInf else PosInf)"
| "js_mul PosInf PosInf = PosInf"
| "js_mul PosInf NegInf = NegInf"
| "js_mul NegInf PosInf = NegInf"
| "js_mul NegInf NegInf = PosInf"

fun js_div :: "jsnum \<Rightarrow> jsnum \<Rightarrow> jsnum" where
  "js_div NaN _ = NaN"
| "js_div _ NaN = NaN"
| "js_div (Num a) (Num b) =
     (if b = 0 then (if a = 0 then NaN else if 0 < a then PosInf else NegInf)
      else Num (a / b))"
| "js_div (Num a) PosInf = Num 0"
| "js_div (Num a) NegInf = Num 0"
| "js_div PosInf (Num b) = (if 0 \<le> b then PosInf else NegInf)"
| "js_div NegInf (Num b) = (if 0 \<le> b then NegInf else PosInf)"
| "js_div PosInf PosInf = NaN"
| "js_div PosInf NegInf = NaN"
| "js_div NegInf PosInf = NaN"
| "js_div NegInf NegInf = NaN"

text \<open>
  \<^verbatim>\<open>a <= b\<close>: false as soon as one side is
  \<^verbatim>\<open>NaN\<close>.
\<close>

fun js_le :: "jsnum \<Rightarrow> jsnum \<Rightarrow> bool" where
  "js_le NaN _ = False"
| "js_le _ NaN = False"
| "js_le (Num a) (Num b) = (a \<le> b)"
| "js_le NegInf _ = True"
| "js_le _ PosInf = True"
| "js_le PosInf _ = False"
| "js_le _ NegInf = False"

definition js_ge :: "jsnum \<Rightarrow> jsnum \<Rightarrow> bool" where
  "js_ge a b = js_le b a"

definition js_gt :: "jsnum \<Rightarrow> jsnum \<Rightarrow> bool" where
  "js_gt a b = (js_le b a \<and> a \<noteq> b)"

text \<open>
  \<^verbatim>\<open>Math.min(a, b)\<close> and \<^verbatim>\<open>Math.round(a)\<close>.
\<close>

definition js_min :: "jsnum \<Rightarrow> jsnum \<Rightarrow> jsnum" where
  "js_min a b = (if a = NaN \<or> b = NaN then NaN else if js_le a b then a else b)"

fun js_round :: "jsnum \<Rightarrow> jsnum" where
  "js_round (Num a) = Num (of_int \<lfloor>a + 1 / 2\<rfloor>)"
| "js_round x = x"

text \<open>
  \<^verbatim>\<open>v || d\<close> on an optional number: \<^verbatim>\<open>undefined\<close>, \<^verbatim>\<open>0\<close> and
  \<^verbatim>\<open>NaN\<close> are falsy.
\<close>

definition js_truthy :: "jsnum \<Rightarrow> bool" where
  "js_truthy x = (x \<noteq> Num 0 \<and> x \<noteq> NaN)"

fun js_or :: "jsnum option \<Rightarrow> jsnum \<Rightarrow> jsnum" where
  "js_or None d = d"
| "js_or (Some v) d = (if js_truthy v then v else d)"

section \<open>Nodes, edges and flow tokens\<close>

record node_data =
  cycleTime :: "jsnum option"
  maxCapacity :: "jsnum option"

record node =
  node_id :: string
  node_type :: string
  parentId :: "string option"
  node_data :: "node_data option"

record edge =
  edge_id :: string
  source :: string
  target :: string
  data_transitTime :: "jsnum option"

text \<open>An entry of \<^verbatim>\<open>activePaths\<close>.\<close>

record path =
  nodeId :: string
  progress :: jsnum
  inTransit :: bool
  transitTo :: string
  transitTime :: jsnum
  transitProgress :: jsnum
  isGroup :: "bool option"
  groupChildren :: "string list option"

section \<open>Topology: \<^verbatim>\<open>startPlayByPlaySimulation\<close>\<close>

text \<open>
  \<^verbatim>\<open>edgeMap\<close>: the outgoing \<^verbatim>\<open>{targetId, transitTime}\<close> entries of each source, appended
  in the order of \<^verbatim>\<open>edges\<close>.
\<close>

definition edgeMap_add :: "(string \<rightharpoonup> (string \<times> jsnum) list) \<Rightarrow> edge \<Rightarrow> (string \<rightharpoonup> (string \<times> jsnum) list)" where
  "edgeMap_add m e =
     m(source e \<mapsto> (case m (source e) of None \<Rightarrow> [] | Some l \<Rightarrow> l)
                      @ [(target e, js_or (data_transitTime e) (Num 0))])"

definition edgeMap :: "edge list \<Rightarrow> (string \<rightharpoonup> (string \<times> jsnum) list)" where
  "edgeMap edges = foldl edgeMap_add Map.empty edges"

text \<open>\<^verbatim>\<open>edgeMap.get(nodeId) || []\<close>\<close>

definition outgoing :: "edge list \<Rightarrow> string \<Rightarrow> (string \<times> jsnum) list" where
  "outgoing edges n = (case edgeMap edges n of None \<Rightarrow> [] | Some l \<Rightarrow> l)"

definition groupChildrenMap_add :: "(string \<rightharpoonup> string list) \<Rightarrow> node \<Rightarrow> (string \<rightharpoonup> string list)" where
  "groupChildrenMap_add m n =
     (case parentId n of
        None \<Rightarrow> m
      | Some p \<Rightarrow>
          if p = [] then m
          else m(p \<mapsto> (case m p of None \<Rightarrow> [] | Some l \<Rightarrow> l) @ [node_id n]))"

definition groupChildrenMap :: "node list \<Rightarrow> (string \<rightharpoonup> string list)" where
  "groupChildrenMap nodes = foldl groupChildrenMap_add Map.empty nodes"

definition childrenOf :: "node list \<Rightarrow> string \<Rightarrow> string list" where
  "childrenOf nodes n = (case groupChildrenMap nodes n of None \<Rightarrow> [] | Some l \<Rightarrow> l)"

text \<open>
  \<^verbatim>\<open>findConnectedNodes\<close> walks depth first and mutates the set \<^verbatim>\<open>connectedNodes\<close>.
  The pending iterations of the enclosing \<^verbatim>\<open>forEach\<close> loops are kept on an explicit stack:
  visiting a node that is already in the set returns at once; otherwise the node and the
  children of the group are added to the set (the children are only added, the walk is
  not called on them) and the targets of the outgoing edges are visited in order, before the
  rest of the stack.
\<close>

function findConnectedNodes :: "node list \<Rightarrow> edge list \<Rightarrow> string list \<Rightarrow> string set \<Rightarrow> string set" where
  "findConnectedNodes nodes edges [] visited = visited"
| "findConnectedNodes nodes edges (n # pending) visited =
     (if n \<in> visited then findConnectedNodes nodes edges pending visited
      else findConnectedNodes nodes edges (map fst (outgoing edges n) @ pending)
             (insert n visited \<union> set (childrenOf nodes n)))"
  by pat_completeness auto

lemma edgeMap_foldl:
  "foldl edgeMap_add m es n =
     (if \<exists>e\<in>set es. source e = n
      then Some ((case m n of None \<Rightarrow> [] | Some l \<Rightarrow> l)
                 @ map (\<lambda>e. (target e, js_or (data_transitTime e) (Num 0)))
                       (filter (\<lambda>e. source e = n) es))
      else m n)"
proof (induction es arbitrary: m)
  case Nil
  show ?case by simp
next
  case (Cons e es)
  show ?case
    by (simp add: Cons.IH) (auto simp: edgeMap_add_def split: option.splits)
qed

lemma outgoing_eq:
  "outgoing edges n =
     map (\<lambda>e. (target e, js_or (data_transitTime e) (Num 0))) (filter (\<lambda>e. source e = n) edges)"
  by (auto simp: outgoing_def edgeMap_def edgeMap_foldl filter_empty_conv)

lemma edgeMap_has:
  "(edgeMap edges n \<noteq> None) = (\<exists>e\<in>set edges. source e = n)"
  by (simp add: edgeMap_def edgeMap_foldl)

lemma outgoing_targets: "fst ` set (outgoing edges n) \<subseteq> target ` set edges"
  by (auto simp: outgoing_eq)

lemma findConnectedNodes_skip_decreases:
  "card ((target ` set edges \<union> set pending) - visited)
     \<le> card ((target ` set edges \<union> set (n # pending)) - visited)"
  by (intro card_mono) auto

lemma findConnectedNodes_visit_decreases:
  assumes "n \<notin> visited"
  shows "card ((target ` set edges \<union> set (map fst (outgoing edges n) @ pending))
               - (insert n visited \<union> set (childrenOf nodes n)))
         < card ((target ` set edges \<union> set (n # pending)) - visited)"
proof -
  let ?A = "(target ` set edges \<union> set (map fst (outgoing edges n) @ pending))
              - (insert n visited \<union> set (childrenOf nodes n))"
  let ?B = "(target ` set edges \<union> set (n # pending)) - visited"
  have "?A \<subseteq> ?B - {n}" using outgoing_targets[of edges n] by auto
  moreover have "n \<in> ?B" using assms by simp
  ultimately have "?A \<subset> ?B" by blast
  then show ?thesis by (intro psubset_card_mono) auto
qed

termination findConnectedNodes
proof (relation "measures
    [\<lambda>(nodes, edges, pending, visited). card ((target ` set edges \<union> set pending) - visited),
     \<lambda>(nodes, edges, pending, visited). length pending]", goal_cases)
  case 1
  show ?case by simp
next
  case (2 nodes edges n pending visited)
  show ?case
    using findConnectedNodes_skip_decreases[of edges pending visited n] by auto
next
  case (3 nodes edges n pending visited)
  show ?case
    using findConnectedNodes_visit_decreases[OF 3, of edges pending nodes] by simp
qed

text \<open>
  \<^verbatim>\<open>startNodeIds\<close>: the nodes that are no edge's target and have an
  outgoing edge.
\<close>

definition allTargets :: "edge list \<Rightarrow> string set" where
  "allTargets edges = set (map target edges)"

definition startNodeIds :: "node list \<Rightarrow> edge list \<Rightarrow> string list" where
  "startNodeIds nodes edges =
     map node_id
       (filter (\<lambda>n. node_id n \<notin> allTargets edges \<and>
                     (case edgeMap edges (node_id n) of None \<Rightarrow> False | Some l \<Rightarrow> 0 < length l))
          nodes)"

text \<open>
  \<^verbatim>\<open>startNodeIds.forEach(nodeId => findConnectedNodes(nodeId))\<close>
\<close>

definition connectedNodes :: "node list \<Rightarrow> edge list \<Rightarrow> string set" where
  "connectedNodes nodes edges =
     foldl (\<lambda>visited s. findConnectedNodes nodes edges [s] visited) {} (startNodeIds nodes edges)"

text \<open>\<^verbatim>\<open>nodes.find(n => n.id === id)?.type === 'group'\<close>\<close>

definition nodeIsGroup :: "node list \<Rightarrow> string \<Rightarrow> bool" where
  "nodeIsGroup nodes i =
     (case find (\<lambda>n. node_id n = i) nodes of None \<Rightarrow> False | Some n \<Rightarrow> node_type n = ''group'')"

definition initialPath :: "node list \<Rightarrow> string \<Rightarrow> path" where
  "initialPath nodes i =
     \<lparr>nodeId = i, progress = Num 0, inTransit = False, transitTo = [], transitTime = Num 0,
      transitProgress = Num 0, isGroup = Some (nodeIsGroup nodes i),
      groupChildren = groupChildrenMap nodes i\<rparr>"

datatype sim_error = NoEntryPoint

text \<open>
  Starting a run: the error toast and the early \<^verbatim>\<open>return\<close> are the left injection; otherwise
  the run begins with the initial \<^verbatim>\<open>activePaths\<close>.
\<close>

definition startPlayByPlaySimulation :: "node list \<Rightarrow> edge list \<Rightarrow> sim_error + path list" where
  "startPlayByPlaySimulation nodes edges =
     (if length (startNodeIds nodes edges) = 0 then Inl NoEntryPoint
      else Inr (map (initialPath nodes) (startNodeIds nodes edges)))"

text \<open>
  \<^verbatim>\<open>new Map(nodes.map(n => [n.id, n.data]))\<close>: a later entry replaces an
  earlier one.
\<close>

definition nodeDataMap :: "node list \<Rightarrow> string \<Rightarrow> node_data option" where
  "nodeDataMap nodes i =
     (case map_of (rev (map (\<lambda>n. (node_id n, node_data n)) nodes)) i of
        None \<Rightarrow> None
      | Some d \<Rightarrow> d)"

section \<open>One animation frame: \<^verbatim>\<open>animate\<close>\<close>

record tick_state =
  nextActivePaths :: "path list"
  activeNodeIds :: "string set"
  transitEdges :: "string \<rightharpoonup> jsnum"

text \<open>
  The record pushed when a transit ends (it carries no \<^verbatim>\<open>isGroup\<close>, no
  \<^verbatim>\<open>groupChildren\<close>).
\<close>

definition arrivedPath :: "path \<Rightarrow> path" where
  "arrivedPath p =
     \<lparr>nodeId = transitTo p, progress = Num 0, inTransit = False, transitTo = [],
      transitTime = Num 0, transitProgress = Num 0, isGroup = None, groupChildren = None\<rparr>"

text \<open>The record pushed for one outgoing edge of a node that completed.\<close>

definition transitPath :: "node list \<Rightarrow> path \<Rightarrow> string \<times> jsnum \<Rightarrow> path" where
  "transitPath nodes p tgt =
     \<lparr>nodeId = nodeId p, progress = Num 1, inTransit = True, transitTo = fst tgt,
      transitTime = snd tgt, transitProgress = Num 0,
      isGroup = Some (nodeIsGroup nodes (fst tgt)),
      groupChildren = groupChildrenMap nodes (fst tgt)\<rparr>"

text \<open>
  \<^verbatim>\<open>path.transitProgress += delta * simulationSpeed / path.transitTime\<close>
\<close>

definition advanceTransit :: "jsnum \<Rightarrow> jsnum \<Rightarrow> path \<Rightarrow> jsnum" where
  "advanceTransit delta speed p =
     js_add (transitProgress p) (js_div (js_mul delta speed) (transitTime p))"

definition arrives :: "jsnum \<Rightarrow> jsnum \<Rightarrow> path \<Rightarrow> bool" where
  "arrives delta speed p =
     (js_ge (advanceTransit delta speed p) (Num 1) \<or> js_le (transitTime p) (Num 0))"

text \<open>
  The effective cycle time of one child, and the minimum over the children that have data.
\<close>

definition childCycleTime :: "node_data \<Rightarrow> jsnum" where
  "childCycleTime d = js_div (js_or (cycleTime d) (Num 0)) (js_or (maxCapacity d) (Num 1))"

definition minCycleTime :: "node list \<Rightarrow> string list \<Rightarrow> jsnum" where
  "minCycleTime nodes children =
     foldl (\<lambda>m c. case nodeDataMap nodes c of None \<Rightarrow> m | Some d \<Rightarrow> js_min m (childCycleTime d))
       PosInf children"

definition groupCycleDuration :: "node list \<Rightarrow> string list \<Rightarrow> jsnum" where
  "groupCycleDuration nodes children =
     (if minCycleTime nodes children = PosInf then Num 1 else minCycleTime nodes children)"

text \<open>
  \<^verbatim>\<open>path.isGroup && path.groupChildren\<close>: the children when the branch
  for groups is taken.
\<close>

definition groupBranch :: "path \<Rightarrow> string list option" where
  "groupBranch p = (if isGroup p = Some True then groupChildren p else None)"

definition cycleDurationOf :: "node list \<Rightarrow> path \<Rightarrow> node_data \<Rightarrow> jsnum" where
  "cycleDurationOf nodes p d =
     (case groupBranch p of
        Some children \<Rightarrow> groupCycleDuration nodes children
      | None \<Rightarrow> js_div (js_or (cycleTime d) (Num 0)) (js_or (maxCapacity d) (Num 1)))"

definition advanceNode :: "node list \<Rightarrow> jsnum \<Rightarrow> jsnum \<Rightarrow> path \<Rightarrow> node_data \<Rightarrow> jsnum" where
  "advanceNode nodes delta speed p d =
     js_add (progress p) (js_div (js_mul delta speed) (cycleDurationOf nodes p d))"

text \<open>
  The body of \<^verbatim>\<open>activePaths.forEach\<close>, on the three accumulators of the
  frame.
\<close>

definition processPath :: "node list \<Rightarrow> edge list \<Rightarrow> jsnum \<Rightarrow> jsnum \<Rightarrow> tick_state \<Rightarrow> path \<Rightarrow> tick_state" where
  "processPath nodes edges delta speed st p =
     (if inTransit p then
        (let tp = advanceTransit delta speed p;
             st1 = (if js_gt (transitTime p) (Num 0) then
                      (case find (\<lambda>e. source e = nodeId p \<and> target e = transitTo p) edges of
                         None \<Rightarrow> st
                       | Some e \<Rightarrow>
                           if edge_id e \<noteq> [] then st\<lparr>transitEdges := (transitEdges st)(edge_id e \<mapsto> tp)\<rparr>
                           else st)
                    else st)
         in if js_ge tp (Num 1) \<or> js_le (transitTime p) (Num 0)
            then st1\<lparr>nextActivePaths := nextActivePaths st1 @ [arrivedPath p],
                     activeNodeIds := insert (transitTo p) (activeNodeIds st1)\<rparr>
            else st1\<lparr>nextActivePaths := nextActivePaths st1 @ [p\<lparr>transitProgress := tp\<rparr>]\<rparr>)
      else
        (case nodeDataMap nodes (nodeId p) of
           None \<Rightarrow> st
         | Some d \<Rightarrow>
             (let st1 = st\<lparr>activeNodeIds :=
                            (case groupBranch p of
                               Some children \<Rightarrow> insert (nodeId p) (activeNodeIds st) \<union> set children
                             | None \<Rightarrow> insert (nodeId p) (activeNodeIds st))\<rparr>;
                  pr = advanceNode nodes delta speed p d
              in if js_ge pr (Num 1)
                 then st1\<lparr>nextActivePaths :=
                            nextActivePaths st1 @ map (transitPath nodes p) (outgoing edges (nodeId p))\<rparr>
                 else st1\<lparr>nextActivePaths := nextActivePaths st1 @ [p\<lparr>progress := pr\<rparr>]\<rparr>)))"

text \<open>The accumulators at the beginning of a frame.\<close>

definition freshFrame :: tick_state where
  "freshFrame = \<lparr>nextActivePaths = [], activeNodeIds = {}, transitEdges = Map.empty\<rparr>"

definition tick :: "node list \<Rightarrow> edge list \<Rightarrow> jsnum \<Rightarrow> jsnum \<Rightarrow> path list \<Rightarrow> tick_state" where
  "tick nodes edges delta speed paths =
     foldl (processPath nodes edges delta speed) freshFrame paths"

text \<open>
  What \<^verbatim>\<open>setNodes\<close> writes for a node, and what
  \<^verbatim>\<open>onUnitPositionUpdate\<close> receives.
\<close>

definition node_active :: "tick_state \<Rightarrow> string \<Rightarrow> bool" where
  "node_active st i = (i \<in> activeNodeIds st)"

definition node_progress :: "tick_state \<Rightarrow> string \<Rightarrow> jsnum option" where
  "node_progress st i =
     map_option progress (find (\<lambda>p. nodeId p = i \<and> \<not> inTransit p) (nextActivePaths st))"

definition unitPosition :: "path list \<Rightarrow> (string \<times> jsnum) option" where
  "unitPosition nxt =
     (case nxt of
        [] \<Rightarrow> None
      | primaryPath # _ \<Rightarrow>
          if \<not> inTransit primaryPath then Some (nodeId primaryPath, progress primaryPath)
          else None)"

text \<open>
  The frames of a run: each delta of the list is one call of \<^verbatim>\<open>animate\<close> after the first
  (which only records the timestamp). A frame that finds \<^verbatim>\<open>activePaths\<close> empty completes
  the run and schedules no further frame.
\<close>

fun run_ticks :: "node list \<Rightarrow> edge list \<Rightarrow> jsnum \<Rightarrow> jsnum list \<Rightarrow> path list \<Rightarrow> path list" where
  "run_ticks nodes edges speed [] paths = paths"
| "run_ticks nodes edges speed (delta # deltas) paths =
     (if paths = [] then []
      else run_ticks nodes edges speed deltas (nextActivePaths (tick nodes edges delta speed paths)))"

section \<open>Completion analysis\<close>

record analysis =
  bottleneckId :: "string option"
  maxCycleTime :: jsnum
  nodeUtilizations :: "string \<rightharpoonup> jsnum"

definition adjustedCycleTime :: "node_data \<Rightarrow> jsnum" where
  "adjustedCycleTime d =
     (let ct = js_or (cycleTime d) (Num 0); mc = js_or (maxCapacity d) (Num 1)
      in if js_gt mc (Num 1) then js_div ct mc else ct)"

text \<open>
  The body of \<^verbatim>\<open>nodes.forEach\<close> in the branch of
  \<^verbatim>\<open>animate\<close> that finds no active path.
\<close>

definition analyseNode :: "node list \<Rightarrow> string set \<Rightarrow> analysis \<Rightarrow> node \<Rightarrow> analysis" where
  "analyseNode nodes visited a n =
     (if node_id n \<notin> visited then a
      else case nodeDataMap nodes (node_id n) of
        None \<Rightarrow> a
      | Some d \<Rightarrow>
          (let adj = adjustedCycleTime d;
               a1 = (if js_gt adj (maxCycleTime a)
                     then a\<lparr>maxCycleTime := adj, bottleneckId := Some (node_id n)\<rparr> else a);
               u = js_min (Num 100) (js_round (js_mul (js_div adj (maxCycleTime a1)) (Num 100)))
           in a1\<lparr>nodeUtilizations := (nodeUtilizations a1)(node_id n \<mapsto> u)\<rparr>))"

definition analyse :: "node list \<Rightarrow> edge list \<Rightarrow> analysis" where
  "analyse nodes edges =
     foldl (analyseNode nodes (connectedNodes nodes edges))
       \<lparr>bottleneckId = (case startNodeIds nodes edges of [] \<Rightarrow> None | s # _ \<Rightarrow> Some s),
        maxCycleTime = Num 0, nodeUtilizations = Map.empty\<rparr> nodes"

record node_report =
  report_active :: bool
  utilization :: jsnum
  bottleneck :: bool

text \<open>
  What the final \<^verbatim>\<open>setNodes\<close> writes into the data of a node.
\<close>

definition completionReport :: "node list \<Rightarrow> edge list \<Rightarrow> node \<Rightarrow> node_report" where
  "completionReport nodes edges n =
     (if node_id n \<notin> connectedNodes nodes edges
      then \<lparr>report_active = False, utilization = Num 0, bottleneck = False\<rparr>
      else \<lparr>report_active = False,
            utilization = js_or (nodeUtilizations (analyse nodes edges) (node_id n)) (Num 0),
            bottleneck = (Some (node_id n) = bottleneckId (analyse nodes edges))\<rparr>)"

text \<open>
  One call of \<^verbatim>\<open>animate\<close> after the first: the completion report when no path is active,
  the accumulators of the frame otherwise.
\<close>

definition animate :: "node list \<Rightarrow> edge list \<Rightarrow> jsnum \<Rightarrow> jsnum \<Rightarrow> path list \<Rightarrow> node_report list + tick_state" where
  "animate nodes edges delta speed paths =
     (if length paths = 0 then Inl (map (completionReport nodes edges) nodes)
      else Inr (tick nodes edges delta speed paths))"

text \<open>
  A run from its start: the error of the start, or the active paths after the given frames.
\<close>

definition simulate :: "node list \<Rightarrow> edge list \<Rightarrow> jsnum \<Rightarrow> jsnum list \<Rightarrow> sim_error + path list" where
  "simulate nodes edges speed deltas =
     (case startPlayByPlaySimulation nodes edges of
        Inl err \<Rightarrow> Inl err
      | Inr paths \<Rightarrow> Inr (run_ticks nodes edges speed deltas paths))"

section \<open>Scenarios\<close>

definition equipmentNode :: "string \<Rightarrow> rat \<Rightarrow> rat \<Rightarrow> node" where
  "equipmentNode i ct cap =
     \<lparr>node_id = i, node_type = ''equipment'', parentId = None,
      node_data = Some \<lparr>cycleTime = Some (Num ct), maxCapacity = Some (Num cap)\<rparr>\<rparr>"

definition childNode :: "string \<Rightarrow> string \<Rightarrow> rat \<Rightarrow> rat \<Rightarrow> node" where
  "childNode i g ct cap =
     \<lparr>node_id = i, node_type = ''equipment'', parentId = Some g,
      node_data = Some \<lparr>cycleTime = Some (Num ct), maxCapacity = Some (Num cap)\<rparr>\<rparr>"

text \<open>A group as the editor creates it: its data has no cycle time and no capacity.\<close>

definition groupNode :: "string \<Rightarrow> node" where
  "groupNode i =
     \<lparr>node_id = i, node_type = ''group'', parentId = None,
      node_data = Some \<lparr>cycleTime = None, maxCapacity = None\<rparr>\<rparr>"

definition flowEdge :: "string \<Rightarrow> string \<Rightarrow> string \<Rightarrow> rat \<Rightarrow> edge" where
  "flowEdge i s t tt = \<lparr>edge_id = i, source = s, target = t, data_transitTime = Some (Num tt)\<rparr>"

text \<open>The chain A, B, C with cycle times 10, 4, 4 and capacity 1.\<close>

definition chainA :: node where
  "chainA = equipmentNode ''A'' 10 1"

definition chainB :: node where
  "chainB = equipmentNode ''B'' 4 1"

definition chainC :: node where
  "chainC = equipmentNode ''C'' 4 1"

definition chain_nodes :: "node list" where
  "chain_nodes = [chainA, chainB, chainC]"

definition chain_edges :: "rat \<Rightarrow> rat \<Rightarrow> edge list" where
  "chain_edges t1 t2 = [flowEdge ''ab'' ''A'' ''B'' t1, flowEdge ''bc'' ''B'' ''C'' t2]"

text \<open>Two nodes that are each other's target: no pure source.\<close>

definition loop_nodes :: "node list" where
  "loop_nodes = [equipmentNode ''X'' 1 1, equipmentNode ''Y'' 1 1]"

definition loop_edges :: "edge list" where
  "loop_edges = [flowEdge ''xy'' ''X'' ''Y'' 1, flowEdge ''yx'' ''Y'' ''X'' 1]"

text \<open>Two sources of different speed that feed one node.\<close>

definition merge_nodes :: "node list" where
  "merge_nodes = [equipmentNode ''F'' 1 1, equipmentNode ''S'' 2 1, equipmentNode ''T'' 1 1]"

definition merge_edges :: "edge list" where
  "merge_edges = [flowEdge ''ft'' ''F'' ''T'' 1, flowEdge ''st'' ''S'' ''T'' 1]"

text \<open>
  A source that feeds a group with three children of cycle times 2, 5 and 8; the group feeds
  a last node.
\<close>

definition group_nodes :: "node list" where
  "group_nodes =
     [equipmentNode ''S'' 1 1, groupNode ''G'', childNode ''C1'' ''G'' 2 1,
      childNode ''C2'' ''G'' 5 1, childNode ''C3'' ''G'' 8 1, equipmentNode ''T'' 1 1]"

definition group_edges :: "edge list" where
  "group_edges = [flowEdge ''sg'' ''S'' ''G'' 1, flowEdge ''gt'' ''G'' ''T'' 1]"

text \<open>A source that feeds a group whose child has an outgoing edge of its own.\<close>

definition sub_nodes :: "node list" where
  "sub_nodes =
     [equipmentNode ''S'' 1 1, groupNode ''G'', childNode ''C'' ''G'' 2 1,
      equipmentNode ''D'' 1 1]"

definition sub_edges :: "edge list" where
  "sub_edges = [flowEdge ''sg'' ''S'' ''G'' 1, flowEdge ''cd'' ''C'' ''D'' 1]"

text \<open>A source whose cycle time is 0.\<close>

definition zero_nodes :: "node list" where
  "zero_nodes = [equipmentNode ''Z'' 0 1, equipmentNode ''T'' 1 1]"

definition zero_edges :: "edge list" where
  "zero_edges = [flowEdge ''zt'' ''Z'' ''T'' 1]"

section \<open>Notions of the specification\<close>

text \<open>
  The primary unit as the specification words it: node and progress of the first path, in the
  order of the active paths, that is not in transit.
\<close>

definition firstNonTransiting :: "path list \<Rightarrow> (string \<times> jsnum) option" where
  "firstNonTransiting nxt =
     map_option (\<lambda>p. (nodeId p, progress p)) (find (\<lambda>p. \<not> inTransit p) nxt)"

section \<open>The invariant of the walk\<close>

text \<open>
  The invariant of the walk: every node of the set that is no child of a group has the targets
  of its edges in the set or pending, and its children in the set.
\<close>

definition walkClosed :: "node list \<Rightarrow> edge list \<Rightarrow> string list \<Rightarrow> string set \<Rightarrow> bool" where
  "walkClosed nodes edges pending visited =
     (\<forall>n\<in>visited. (\<forall>g. n \<notin> set (childrenOf nodes g)) \<longrightarrow>
        fst ` set (outgoing edges n) \<subseteq> visited \<union> set pending
        \<and> set (childrenOf nodes n) \<subseteq> visited)"

section \<open>The adjacency map\<close>

lemma edgeMap_eq:
  "edgeMap edges n =
     (if \<exists>e\<in>set edges. source e = n
      then Some (map (\<lambda>e. (target e, js_or (data_transitTime e) (Num 0)))
                     (filter (\<lambda>e. source e = n) edges))
      else None)"
  by (simp add: edgeMap_def edgeMap_foldl)

lemma hasOutgoing_iff:
  "(case edgeMap edges n of None \<Rightarrow> False | Some l \<Rightarrow> 0 < length l) = (\<exists>e\<in>set edges. source e = n)"
  by (auto simp: edgeMap_eq filter_empty_conv)

lemma startNodeIds_eq:
  "startNodeIds nodes edges =
     map node_id (filter (\<lambda>n. (\<exists>e\<in>set edges. source e = node_id n) \<and>
                                (\<forall>e\<in>set edges. target e \<noteq> node_id n)) nodes)"
  unfolding startNodeIds_def hasOutgoing_iff allTargets_def
  by (rule arg_cong[where f="map node_id"], rule filter_cong) (auto simp: image_iff)

lemmas scenario_defs =
  equipmentNode_def childNode_def groupNode_def flowEdge_def
  chainA_def chainB_def chainC_def chain_nodes_def chain_edges_def loop_nodes_def loop_edges_def
  merge_nodes_def merge_edges_def group_nodes_def group_edges_def sub_nodes_def sub_edges_def
  zero_nodes_def zero_edges_def

section \<open>Starting a run\<close>

text \<open>
  Claim C5. When no node has an outgoing edge while being no edge's target, starting the run
  returns the error \<open>NoEntryPoint\<close>: there are no active paths and no frame is ever
  processed, whatever the frames would be. When such a node exists, the run starts, with one
  path per start node, in the order of the nodes, each at its node (not in transit) with
  progress 0.
\<close>

theorem start_entry_point:
  "(\<not> (\<exists>n\<in>set nodes. (\<exists>e\<in>set edges. source e = node_id n) \<and>
                       (\<forall>e\<in>set edges. target e \<noteq> node_id n))
     \<longrightarrow> startPlayByPlaySimulation nodes edges = Inl NoEntryPoint
         \<and> simulate nodes edges speed deltas = Inl NoEntryPoint)
   \<and> ((\<exists>n\<in>set nodes. (\<exists>e\<in>set edges. source e = node_id n) \<and>
                       (\<forall>e\<in>set edges. target e \<noteq> node_id n))
     \<longrightarrow> (\<exists>paths. startPlayByPlaySimulation nodes edges = Inr paths
            \<and> paths \<noteq> []
            \<and> map nodeId paths =
                map node_id (filter (\<lambda>n. (\<exists>e\<in>set edges. source e = node_id n) \<and>
                                           (\<forall>e\<in>set edges. target e \<noteq> node_id n)) nodes)
            \<and> (\<forall>p\<in>set paths. \<not> inTransit p \<and> progress p = Num 0)))"
proof (intro conjI impI)
  assume none: "\<not> (\<exists>n\<in>set nodes. (\<exists>e\<in>set edges. source e = node_id n) \<and>
                       (\<forall>e\<in>set edges. target e \<noteq> node_id n))"
  then have "startNodeIds nodes edges = []"
    by (simp add: startNodeIds_eq filter_empty_conv)
  then show a: "startPlayByPlaySimulation nodes edges = Inl NoEntryPoint"
    by (simp add: startPlayByPlaySimulation_def)
  then show "simulate nodes edges speed deltas = Inl NoEntryPoint"
    by (simp add: simulate_def)
next
  assume some: "\<exists>n\<in>set nodes. (\<exists>e\<in>set edges. source e = node_id n) \<and>
                       (\<forall>e\<in>set edges. target e \<noteq> node_id n)"
  then have ne: "startNodeIds nodes edges \<noteq> []"
    by (simp add: startNodeIds_eq filter_empty_conv)
  let ?paths = "map (initialPath nodes) (startNodeIds nodes edges)"
  have "startPlayByPlaySimulation nodes edges = Inr ?paths"
    using ne by (simp add: startPlayByPlaySimulation_def)
  moreover have "?paths \<noteq> []" using ne by simp
  moreover have "map nodeId ?paths = startNodeIds nodes edges"
    by (simp add: comp_def initialPath_def)
  moreover have "\<forall>p\<in>set ?paths. \<not> inTransit p \<and> progress p = Num 0"
    by (auto simp: initialPath_def)
  ultimately show "\<exists>paths. startPlayByPlaySimulation nodes edges = Inr paths
            \<and> paths \<noteq> []
            \<and> map nodeId paths =
                map node_id (filter (\<lambda>n. (\<exists>e\<in>set edges. source e = node_id n) \<and>
                                           (\<forall>e\<in>set edges. target e \<noteq> node_id n)) nodes)
            \<and> (\<forall>p\<in>set paths. \<not> inTransit p \<and> progress p = Num 0)"
    unfolding startNodeIds_eq by blast
qed

theorem start_entry_point_witness:
  "startPlayByPlaySimulation loop_nodes loop_edges = Inl NoEntryPoint
   \<and> simulate loop_nodes loop_edges (Num 1) [Num 1, Num 1] = Inl NoEntryPoint
   \<and> (\<exists>paths. startPlayByPlaySimulation chain_nodes (chain_edges 1 1) = Inr paths
        \<and> map nodeId paths = [''A''])"
  using start_entry_point [of loop_nodes loop_edges "Num 1" "[Num 1, Num 1]"]
        start_entry_point [of chain_nodes "chain_edges 1 1"]
  by (auto simp: scenario_defs)

section \<open>The frame, path by path\<close>

lemma js_le_zero_not_gt: "js_le a (Num 0) \<Longrightarrow> \<not> js_gt a (Num 0)"
  by (cases a) (auto simp: js_gt_def)

text \<open>
  Claim C4. A path at a node whose progress reaches 1 in the frame adds to the next active
  paths exactly one in-transit path per outgoing edge of the node, in the order of the edges,
  each with transit progress 0 and the transit time of its edge; with no outgoing edge it adds
  nothing.
\<close>

theorem branching_law:
  assumes "\<not> inTransit p" and "nodeDataMap nodes (nodeId p) = Some d"
    and "js_ge (advanceNode nodes delta speed p d) (Num 1)"
  shows "nextActivePaths (processPath nodes edges delta speed st p) =
     nextActivePaths st @
       map (\<lambda>e. \<lparr>nodeId = nodeId p, progress = Num 1, inTransit = True, transitTo = target e,
                  transitTime = js_or (data_transitTime e) (Num 0), transitProgress = Num 0,
                  isGroup = Some (nodeIsGroup nodes (target e)),
                  groupChildren = groupChildrenMap nodes (target e)\<rparr>)
           (filter (\<lambda>e. source e = nodeId p) edges)
     \<and> length (nextActivePaths (processPath nodes edges delta speed st p)) =
         length (nextActivePaths st) + length (filter (\<lambda>e. source e = nodeId p) edges)
     \<and> (filter (\<lambda>e. source e = nodeId p) edges = [] \<longrightarrow>
         nextActivePaths (processPath nodes edges delta speed st p) = nextActivePaths st)"
  using assms by (simp add: processPath_def Let_def outgoing_eq transitPath_def comp_def)

theorem branching_law_witness:
  "nextActivePaths (processPath chain_nodes (chain_edges 1 1) (Num 10) (Num 1) freshFrame
       (initialPath chain_nodes ''A'')) =
     [\<lparr>nodeId = ''A'', progress = Num 1, inTransit = True, transitTo = ''B'',
       transitTime = Num 1, transitProgress = Num 0, isGroup = Some False,
       groupChildren = None\<rparr>]"
proof -
  let ?p = "initialPath chain_nodes ''A''"
  let ?d = "\<lparr>cycleTime = Some (Num 10), maxCapacity = Some (Num 1)\<rparr>"
  have h1: "\<not> inTransit ?p" by (simp add: initialPath_def)
  have h2: "nodeDataMap chain_nodes (nodeId ?p) = Some ?d"
    by (simp add: initialPath_def nodeDataMap_def scenario_defs)
  have h3: "js_ge (advanceNode chain_nodes (Num 10) (Num 1) ?p ?d) (Num 1)"
    by (simp add: advanceNode_def cycleDurationOf_def groupBranch_def initialPath_def
        nodeIsGroup_def js_ge_def js_truthy_def scenario_defs)
  show ?thesis
    using branching_law [OF h1 h2 h3, of "chain_edges 1 1" freshFrame]
    by (simp add: freshFrame_def initialPath_def nodeIsGroup_def groupChildrenMap_def
        groupChildrenMap_add_def js_truthy_def scenario_defs)
qed

text \<open>
  Claim C9. A path in transit whose transit time is at most 0 ends its transit in the next
  frame, whatever the delta, the speed and its transit progress are: the frame pushes the
  path at the target with progress 0, marks the target active, and changes nothing else.
\<close>

theorem nonpositive_transit_arrives:
  assumes "inTransit p" and "js_le (transitTime p) (Num 0)"
  shows "processPath nodes edges delta speed st p =
     st\<lparr>nextActivePaths := nextActivePaths st @
            [\<lparr>nodeId = transitTo p, progress = Num 0, inTransit = False, transitTo = [],
              transitTime = Num 0, transitProgress = Num 0, isGroup = None, groupChildren = None\<rparr>],
        activeNodeIds := insert (transitTo p) (activeNodeIds st)\<rparr>"
  using assms by (simp add: processPath_def Let_def js_le_zero_not_gt arrivedPath_def)

theorem nonpositive_transit_arrives_witness:
  "processPath chain_nodes (chain_edges 0 1) (Num 0) (Num 1) freshFrame
     \<lparr>nodeId = ''A'', progress = Num 1, inTransit = True, transitTo = ''B'',
      transitTime = Num 0, transitProgress = Num 0, isGroup = Some False,
      groupChildren = None\<rparr> =
   \<lparr>nextActivePaths =
      [\<lparr>nodeId = ''B'', progress = Num 0, inTransit = False, transitTo = [],
        transitTime = Num 0, transitProgress = Num 0, isGroup = None, groupChildren = None\<rparr>],
    activeNodeIds = {''B''}, transitEdges = Map.empty\<rparr>"
proof -
  let ?p = "\<lparr>nodeId = ''A'', progress = Num 1, inTransit = True, transitTo = ''B'',
      transitTime = Num 0, transitProgress = Num 0, isGroup = Some False,
      groupChildren = None\<rparr>"
  have h1: "inTransit ?p" by simp
  have h2: "js_le (transitTime ?p) (Num 0)" by simp
  show ?thesis
    using nonpositive_transit_arrives [OF h1 h2, of chain_nodes "chain_edges 0 1" "Num 0" "Num 1" freshFrame]
    by (simp add: freshFrame_def)
qed

section \<open>The frame as a whole\<close>

text \<open>Each path pushes its own records and marks its own nodes, whatever came before.\<close>

lemma next_processPath:
  "nextActivePaths (processPath nodes edges delta speed st p) =
     nextActivePaths st @ nextActivePaths (processPath nodes edges delta speed freshFrame p)"
  by (simp add: processPath_def Let_def freshFrame_def split: option.splits)

lemma active_processPath:
  "activeNodeIds (processPath nodes edges delta speed st p) =
     activeNodeIds st \<union> activeNodeIds (processPath nodes edges delta speed freshFrame p)"
  by (simp add: processPath_def Let_def freshFrame_def split: option.splits)

lemma next_foldl:
  "nextActivePaths (foldl (processPath nodes edges delta speed) st ps) =
     nextActivePaths st @
       concat (map (\<lambda>p. nextActivePaths (processPath nodes edges delta speed freshFrame p)) ps)"
proof (induction ps arbitrary: st)
  case Nil
  show ?case by simp
next
  case (Cons p ps)
  show ?case
    by (simp add: Cons.IH next_processPath [of nodes edges delta speed st p])
qed

lemma active_foldl:
  "activeNodeIds (foldl (processPath nodes edges delta speed) st ps) =
     activeNodeIds st \<union>
       (\<Union>p\<in>set ps. activeNodeIds (processPath nodes edges delta speed freshFrame p))"
proof (induction ps arbitrary: st)
  case Nil
  show ?case by simp
next
  case (Cons p ps)
  show ?case
    by (simp add: Cons.IH active_processPath [of nodes edges delta speed st p] Un_assoc)
qed

lemma next_tick:
  "nextActivePaths (tick nodes edges delta speed ps) =
     concat (map (\<lambda>p. nextActivePaths (processPath nodes edges delta speed freshFrame p)) ps)"
  by (simp add: tick_def next_foldl) (simp add: freshFrame_def)

lemma active_tick:
  "activeNodeIds (tick nodes edges delta speed ps) =
     (\<Union>p\<in>set ps. activeNodeIds (processPath nodes edges delta speed freshFrame p))"
  by (simp add: tick_def active_foldl) (simp add: freshFrame_def)

lemmas frame_defs =
  tick_def processPath_def freshFrame_def Let_def initialPath_def arrivedPath_def transitPath_def
  advanceTransit_def advanceNode_def cycleDurationOf_def groupBranch_def groupCycleDuration_def
  minCycleTime_def childCycleTime_def nodeDataMap_def nodeIsGroup_def outgoing_eq
  groupChildrenMap_def groupChildrenMap_add_def js_ge_def js_gt_def js_min_def js_truthy_def

section \<open>The primary unit\<close>

text \<open>
  Claim C3, as stated, fails: the frame reports the first of the next active paths when that
  path is not in transit, and clears the report otherwise, also when a later path is at a node.
  From the start of the scenario with a fast and a slow source, one frame of one second leaves
  the path of the fast source in transit in front of the path at the slow source: the report is
  cleared although a path that is not in transit exists.
\<close>

theorem primary_unit_counterexample:
  "\<exists>paths. startPlayByPlaySimulation merge_nodes merge_edges = Inr paths
    \<and> unitPosition (nextActivePaths (tick merge_nodes merge_edges (Num 1) (Num 1) paths)) = None
    \<and> firstNonTransiting (nextActivePaths (tick merge_nodes merge_edges (Num 1) (Num 1) paths))
        = Some (''S'', Num (1 / 2))"
  by (simp add: startPlayByPlaySimulation_def startNodeIds_eq scenario_defs frame_defs
      unitPosition_def firstNonTransiting_def)

text \<open>
  Claim C3, amended. After every frame the reported position is the node and progress of the
  first of the next active paths when that path is not in transit (it is then the first path
  that is not in transit), and it is cleared exactly when there is no next active path or the
  first one is in transit.
\<close>

theorem primary_unit_first_path:
  "unitPosition (nextActivePaths (tick nodes edges delta speed paths)) =
     (if nextActivePaths (tick nodes edges delta speed paths) \<noteq> []
         \<and> \<not> inTransit (hd (nextActivePaths (tick nodes edges delta speed paths)))
      then firstNonTransiting (nextActivePaths (tick nodes edges delta speed paths))
      else None)
   \<and> ((unitPosition (nextActivePaths (tick nodes edges delta speed paths)) = None) =
       (nextActivePaths (tick nodes edges delta speed paths) = []
        \<or> inTransit (hd (nextActivePaths (tick nodes edges delta speed paths)))))"
  by (cases "nextActivePaths (tick nodes edges delta speed paths)")
     (simp_all add: unitPosition_def firstNonTransiting_def)

theorem primary_unit_first_path_witness:
  "unitPosition (nextActivePaths (tick merge_nodes merge_edges (Num (1 / 2)) (Num 1)
       (map (initialPath merge_nodes) [''F'', ''S'']))) = Some (''F'', Num (1 / 2))"
proof -
  let ?nxt = "nextActivePaths (tick merge_nodes merge_edges (Num (1 / 2)) (Num 1)
       (map (initialPath merge_nodes) [''F'', ''S'']))"
  have nxt: "?nxt =
     [(initialPath merge_nodes ''F'')\<lparr>progress := Num (1 / 2)\<rparr>,
      (initialPath merge_nodes ''S'')\<lparr>progress := Num (1 / 4)\<rparr>]"
    by (simp add: scenario_defs frame_defs)
  have "firstNonTransiting ?nxt = Some (''F'', Num (1 / 2))"
    unfolding nxt by (simp add: firstNonTransiting_def initialPath_def)
  moreover have "?nxt \<noteq> [] \<and> \<not> inTransit (hd ?nxt)"
    unfolding nxt by (simp add: initialPath_def)
  ultimately show ?thesis
    using primary_unit_first_path [of merge_nodes merge_edges "Num (1 / 2)" "Num 1"
        "map (initialPath merge_nodes) [''F'', ''S'']"]
    by simp
qed

section \<open>Paths that stay in transit\<close>

lemma staying_path_local:
  assumes "(if inTransit p then nodeId p = n \<or> transitTo p = n
            else nodeId p = n \<or> (\<exists>cs. groupBranch p = Some cs \<and> n \<in> set cs))
           \<longrightarrow> inTransit p \<and> \<not> arrives delta speed p"
  shows "n \<notin> activeNodeIds (processPath nodes edges delta speed freshFrame p)
       \<and> (\<forall>q\<in>set (nextActivePaths (processPath nodes edges delta speed freshFrame p)).
            nodeId q = n \<longrightarrow> inTransit q)"
  using assms
  by (auto simp: processPath_def Let_def arrives_def freshFrame_def arrivedPath_def
      transitPath_def split: option.splits if_splits)

text \<open>
  Claim C10. A path that is in transit and does not arrive in the frame marks no node active:
  processing it leaves the set of active node ids as it was, and its edge (the first edge from
  its source to its target, when the transit time is positive) carries its transit progress.
  Hence, when every path that has
  to do with a node \<open>n\<close> (in transit from or to \<open>n\<close>, at \<open>n\<close>, or at a group
  whose children it marks and \<open>n\<close> is one of them) is a path in transit that does not
  arrive in the frame, the snapshot of the frame reports \<open>n\<close> inactive and without
  progress.
\<close>

theorem transit_marks_no_node:
  "(inTransit p \<and> \<not> arrives delta speed p \<longrightarrow>
      activeNodeIds (processPath nodes edges delta speed st p) = activeNodeIds st)
   \<and> (inTransit p \<and> \<not> arrives delta speed p \<and> js_gt (transitTime p) (Num 0)
        \<and> find (\<lambda>e. source e = nodeId p \<and> target e = transitTo p) edges = Some ed
        \<and> edge_id ed \<noteq> [] \<longrightarrow>
      transitEdges (processPath nodes edges delta speed st p) (edge_id ed) =
        Some (advanceTransit delta speed p))
   \<and> ((\<forall>q\<in>set paths.
          (if inTransit q then nodeId q = n \<or> transitTo q = n
           else nodeId q = n \<or> (\<exists>cs. groupBranch q = Some cs \<and> n \<in> set cs))
          \<longrightarrow> inTransit q \<and> \<not> arrives delta speed q)
       \<longrightarrow> \<not> node_active (tick nodes edges delta speed paths) n
           \<and> node_progress (tick nodes edges delta speed paths) n = None)"
proof (intro conjI impI)
  assume "inTransit p \<and> \<not> arrives delta speed p"
  then show "activeNodeIds (processPath nodes edges delta speed st p) = activeNodeIds st"
    by (simp add: processPath_def Let_def arrives_def split: option.splits)
next
  assume "inTransit p \<and> \<not> arrives delta speed p \<and> js_gt (transitTime p) (Num 0)
        \<and> find (\<lambda>e. source e = nodeId p \<and> target e = transitTo p) edges = Some ed
        \<and> edge_id ed \<noteq> []"
  then show "transitEdges (processPath nodes edges delta speed st p) (edge_id ed) =
        Some (advanceTransit delta speed p)"
    by (simp add: processPath_def Let_def arrives_def)
next
  assume all: "\<forall>q\<in>set paths.
          (if inTransit q then nodeId q = n \<or> transitTo q = n
           else nodeId q = n \<or> (\<exists>cs. groupBranch q = Some cs \<and> n \<in> set cs))
          \<longrightarrow> inTransit q \<and> \<not> arrives delta speed q"
  have "n \<notin> activeNodeIds (processPath nodes edges delta speed freshFrame q)"
    if "q \<in> set paths" for q
    using staying_path_local [of q n delta speed nodes edges] all that by blast
  then show "\<not> node_active (tick nodes edges delta speed paths) n"
    by (simp add: node_active_def active_tick)
next
  assume all: "\<forall>q\<in>set paths.
          (if inTransit q then nodeId q = n \<or> transitTo q = n
           else nodeId q = n \<or> (\<exists>cs. groupBranch q = Some cs \<and> n \<in> set cs))
          \<longrightarrow> inTransit q \<and> \<not> arrives delta speed q"
  have "nodeId r = n \<longrightarrow> inTransit r"
    if "q \<in> set paths"
      and "r \<in> set (nextActivePaths (processPath nodes edges delta speed freshFrame q))" for q r
    using staying_path_local [of q n delta speed nodes edges] all that by blast
  then have "\<forall>r\<in>set (nextActivePaths (tick nodes edges delta speed paths)).
      \<not> (nodeId r = n \<and> \<not> inTransit r)"
    unfolding next_tick by auto
  then show "node_progress (tick nodes edges delta speed paths) n = None"
    unfolding node_progress_def by (simp add: find_None_iff)
qed

theorem transit_marks_no_node_witness:
  "activeNodeIds (processPath chain_nodes (chain_edges 1 1) (Num (1 / 2)) (Num 1) freshFrame
      \<lparr>nodeId = ''A'', progress = Num 1, inTransit = True, transitTo = ''B'',
       transitTime = Num 1, transitProgress = Num 0, isGroup = Some False,
       groupChildren = None\<rparr>) = {}
   \<and> transitEdges (processPath chain_nodes (chain_edges 1 1) (Num (1 / 2)) (Num 1) freshFrame
      \<lparr>nodeId = ''A'', progress = Num 1, inTransit = True, transitTo = ''B'',
       transitTime = Num 1, transitProgress = Num 0, isGroup = Some False,
       groupChildren = None\<rparr>) ''ab'' = Some (Num (1 / 2))
   \<and> \<not> node_active (tick chain_nodes (chain_edges 1 1) (Num (1 / 2)) (Num 1)
      [\<lparr>nodeId = ''A'', progress = Num 1, inTransit = True, transitTo = ''B'',
        transitTime = Num 1, transitProgress = Num 0, isGroup = Some False,
        groupChildren = None\<rparr>]) ''A''
   \<and> node_progress (tick chain_nodes (chain_edges 1 1) (Num (1 / 2)) (Num 1)
      [\<lparr>nodeId = ''A'', progress = Num 1, inTransit = True, transitTo = ''B'',
        transitTime = Num 1, transitProgress = Num 0, isGroup = Some False,
        groupChildren = None\<rparr>]) ''A'' = None"
proof -
  let ?p = "\<lparr>nodeId = ''A'', progress = Num 1, inTransit = True, transitTo = ''B'',
       transitTime = Num 1, transitProgress = Num 0, isGroup = Some False,
       groupChildren = None\<rparr>"
  have stays: "inTransit ?p \<and> \<not> arrives (Num (1 / 2)) (Num 1) ?p"
    by (simp add: arrives_def advanceTransit_def js_ge_def)
  show ?thesis
    using stays
      transit_marks_no_node [of ?p "Num (1 / 2)" "Num 1" chain_nodes "chain_edges 1 1"
        freshFrame "flowEdge ''ab'' ''A'' ''B'' 1" "[?p]" "''A''"]
    by (simp add: freshFrame_def scenario_defs js_gt_def advanceTransit_def)
qed

section \<open>Groups\<close>

text \<open>
  A path that takes the branch for groups (a start node of type group that has children) marks
  every child active and advances by the delta, scaled by the speed, over the minimum of the
  children's effective cycle times (1 when no child has data).
\<close>

lemma group_branch_frame:
  assumes "\<not> inTransit p" and "nodeDataMap nodes (nodeId p) = Some d"
    and "isGroup p = Some True" and "groupChildren p = Some children"
  shows "set children \<subseteq> activeNodeIds (processPath nodes edges delta speed st p)"
    and "advanceNode nodes delta speed p d =
           js_add (progress p) (js_div (js_mul delta speed) (groupCycleDuration nodes children))"
  using assms
  by (auto simp: processPath_def Let_def groupBranch_def advanceNode_def cycleDurationOf_def)

text \<open>
  Claim C1 fails in the code for a group that is reached through an edge. In the scenario the
  source completes in the first frame and its path arrives at the group in the second. The
  record pushed on arrival has neither \<open>isGroup\<close> nor \<open>groupChildren\<close>, although the
  path in transit carried both. In the next frame, of half a second, the path at the group
  takes the branch for plain nodes: only the group is marked active, none of its children,
  and the division by the group's own cycle time, 0, completes the path at once. A path of the
  same group as a start node would have advanced by a quarter, half a second over the fastest
  child's 2 seconds.
\<close>

theorem group_reached_by_transit:
  "\<exists>paths. startPlayByPlaySimulation group_nodes group_edges = Inr paths
     \<and> run_ticks group_nodes group_edges (Num 1) [Num 1, Num 1] paths =
         [\<lparr>nodeId = ''G'', progress = Num 0, inTransit = False, transitTo = [],
           transitTime = Num 0, transitProgress = Num 0, isGroup = None,
           groupChildren = None\<rparr>]
     \<and> activeNodeIds (tick group_nodes group_edges (Num (1 / 2)) (Num 1)
          (run_ticks group_nodes group_edges (Num 1) [Num 1, Num 1] paths)) = {''G''}
     \<and> nextActivePaths (tick group_nodes group_edges (Num (1 / 2)) (Num 1)
          (run_ticks group_nodes group_edges (Num 1) [Num 1, Num 1] paths)) =
         [\<lparr>nodeId = ''G'', progress = Num 1, inTransit = True, transitTo = ''T'',
           transitTime = Num 1, transitProgress = Num 0, isGroup = Some False,
           groupChildren = None\<rparr>]
     \<and> advanceNode group_nodes (Num (1 / 2)) (Num 1) (initialPath group_nodes ''G'')
          \<lparr>cycleTime = None, maxCapacity = None\<rparr> = Num (1 / 4)"
  by (simp add: startPlayByPlaySimulation_def startNodeIds_eq scenario_defs frame_defs)

section \<open>The connected nodes\<close>

text \<open>The walk only adds nodes, and every node it is called on ends up in the set.\<close>

lemma findConnectedNodes_grows:
  "visited \<union> set pending \<subseteq> findConnectedNodes nodes edges pending visited"
proof (induction nodes edges pending visited rule: findConnectedNodes.induct)
  case (1 nodes edges visited)
  show ?case by simp
next
  case (2 nodes edges n pending visited)
  then show ?case by (cases "n \<in> visited") auto
qed

lemma connectedNodes_foldl_grows:
  "visited \<union> set ss \<subseteq> foldl (\<lambda>visited s. findConnectedNodes nodes edges [s] visited) visited ss"
proof (induction ss arbitrary: visited)
  case Nil
  show ?case by simp
next
  case (Cons s ss)
  have "visited \<union> {s} \<subseteq> findConnectedNodes nodes edges [s] visited"
    using findConnectedNodes_grows [of visited "[s]" nodes edges] by simp
  then show ?case using Cons.IH [of "findConnectedNodes nodes edges [s] visited"] by auto
qed

lemma start_nodes_connected:
  "set (startNodeIds nodes edges) \<subseteq> connectedNodes nodes edges"
  unfolding connectedNodes_def
  using connectedNodes_foldl_grows [of "{}" "startNodeIds nodes edges" nodes edges] by simp

text \<open>
  Outside the children of groups the set is closed: a connected node that is no child of a
  group has the targets of its edges and its children connected.
\<close>

lemma findConnectedNodes_closed:
  "walkClosed nodes edges pending visited
     \<Longrightarrow> walkClosed nodes edges [] (findConnectedNodes nodes edges pending visited)"
proof (induction nodes edges pending visited rule: findConnectedNodes.induct)
  case (1 nodes edges visited)
  then show ?case by simp
next
  case (2 nodes edges n pending visited)
  show ?case
  proof (cases "n \<in> visited")
    case True
    have "walkClosed nodes edges pending visited"
      using "2.prems" True unfolding walkClosed_def by auto
    then show ?thesis using "2.IH"(1) True by simp
  next
    case False
    have "walkClosed nodes edges (map fst (outgoing edges n) @ pending)
        (insert n visited \<union> set (childrenOf nodes n))"
      using "2.prems" unfolding walkClosed_def by auto
    then show ?thesis using "2.IH"(2) False by simp
  qed
qed

lemma connectedNodes_foldl_closed:
  "walkClosed nodes edges [] visited
     \<Longrightarrow> walkClosed nodes edges []
           (foldl (\<lambda>visited s. findConnectedNodes nodes edges [s] visited) visited ss)"
proof (induction ss arbitrary: visited)
  case Nil
  then show ?case by simp
next
  case (Cons s ss)
  have "walkClosed nodes edges [s] visited"
    using Cons.prems unfolding walkClosed_def by auto
  then have "walkClosed nodes edges [] (findConnectedNodes nodes edges [s] visited)"
    by (rule findConnectedNodes_closed)
  then show ?case using Cons.IH by simp
qed

lemma connectedNodes_closed_outside_groups:
  assumes "n \<in> connectedNodes nodes edges" and "\<forall>g. n \<notin> set (childrenOf nodes g)"
  shows "fst ` set (outgoing edges n) \<subseteq> connectedNodes nodes edges"
    and "set (childrenOf nodes n) \<subseteq> connectedNodes nodes edges"
proof -
  have "walkClosed nodes edges [] {}" by (simp add: walkClosed_def)
  then have "walkClosed nodes edges [] (connectedNodes nodes edges)"
    unfolding connectedNodes_def by (rule connectedNodes_foldl_closed)
  then show "fst ` set (outgoing edges n) \<subseteq> connectedNodes nodes edges"
    and "set (childrenOf nodes n) \<subseteq> connectedNodes nodes edges"
    using assms unfolding walkClosed_def by auto
qed

text \<open>
  Claim C2 fails in the code for a child of a group that has an outgoing edge. The walk adds
  the children of a group to the set without visiting them, and a later visit of such a child
  returns at once because the child is in the set. In the scenario the child \<open>C\<close> is a
  start node itself and the source \<open>S\<close> comes first: \<open>C\<close> is connected, its edge leads
  to \<open>D\<close>, and \<open>D\<close> is not connected, although the run moves a path onto \<open>D\<close>.
\<close>

theorem child_edges_not_followed:
  "startNodeIds sub_nodes sub_edges = [''S'', ''C'']
   \<and> connectedNodes sub_nodes sub_edges = {''S'', ''G'', ''C''}
   \<and> outgoing sub_edges ''C'' = [(''D'', Num 1)]
   \<and> ''D'' \<notin> connectedNodes sub_nodes sub_edges
   \<and> run_ticks sub_nodes sub_edges (Num 1) [Num 1, Num 1, Num 1]
        (map (initialPath sub_nodes) (startNodeIds sub_nodes sub_edges)) =
       [\<lparr>nodeId = ''D'', progress = Num 0, inTransit = False, transitTo = [],
         transitTime = Num 0, transitProgress = Num 0, isGroup = None, groupChildren = None\<rparr>]"
  by (simp add: connectedNodes_def startNodeIds_eq scenario_defs childrenOf_def frame_defs
      insert_commute)

section \<open>Progress within a state\<close>

text \<open>
  Claim C8 fails in the code for a node of cycle time 0 in a frame whose delta is 0: the
  division of 0 by 0 is \<open>NaN\<close>, the test for completion is false, and the path stays at
  its node with progress \<open>NaN\<close>, which is not greater than or equal to the progress 0
  before the frame. Every later frame leaves it so. (The test of the transit branch has the
  guard on a transit time of 0 that this branch lacks.)
\<close>

theorem zero_cycle_zero_delta:
  "\<exists>paths. startPlayByPlaySimulation zero_nodes zero_edges = Inr paths
     \<and> map progress paths = [Num 0]
     \<and> nextActivePaths (tick zero_nodes zero_edges (Num 0) (Num 1) paths) =
         map (\<lambda>p. p\<lparr>progress := NaN\<rparr>) paths
     \<and> \<not> js_ge NaN (Num 0)
     \<and> run_ticks zero_nodes zero_edges (Num 1) [Num 0, Num 1, Num 1] paths =
         map (\<lambda>p. p\<lparr>progress := NaN\<rparr>) paths"
  by (simp add: startPlayByPlaySimulation_def startNodeIds_eq scenario_defs frame_defs)

section \<open>The bottleneck of the chain\<close>

text \<open>
  Claim C6. In the chain of A, B and C with cycle times 10, 4 and 4, capacity 1 and positive
  transit times, in whatever order the editor holds the three nodes and the two edges, the
  frame that finds no active path returns the completion report, which marks A, and neither
  B nor C, as the bottleneck and gives A the utilization 100.
\<close>

theorem bottleneck_chain:
  assumes "0 < t1" and "0 < t2"
    and nodes: "nodes = [chainA, chainB, chainC] \<or> nodes = [chainA, chainC, chainB]
       \<or> nodes = [chainB, chainA, chainC] \<or> nodes = [chainB, chainC, chainA]
       \<or> nodes = [chainC, chainA, chainB] \<or> nodes = [chainC, chainB, chainA]"
    and edges: "edges = chain_edges t1 t2 \<or> edges = rev (chain_edges t1 t2)"
  shows "animate nodes edges delta speed [] = Inl (map (completionReport nodes edges) nodes)
    \<and> map (\<lambda>n. (node_id n, bottleneck (completionReport nodes edges n))) [chainA, chainB, chainC]
        = [(''A'', True), (''B'', False), (''C'', False)]
    \<and> utilization (completionReport nodes edges chainA) = Num 100"
proof -
  have conn: "connectedNodes nodes edges = {''A'', ''B'', ''C''}"
    using nodes edges
    by (elim disjE)
       (simp_all add: connectedNodes_def startNodeIds_eq scenario_defs outgoing_eq
          childrenOf_def groupChildrenMap_def groupChildrenMap_add_def insert_commute)
  have start: "startNodeIds nodes edges = [''A'']"
    using nodes edges
    by (elim disjE) (simp_all add: startNodeIds_eq scenario_defs)
  have an: "bottleneckId (analyse nodes edges) = Some ''A''
      \<and> nodeUtilizations (analyse nodes edges) ''A'' = Some (Num 100)"
    unfolding analyse_def conn start using nodes
    by (elim disjE)
       (simp_all add: analyseNode_def nodeDataMap_def adjustedCycleTime_def Let_def js_gt_def
          js_truthy_def js_min_def scenario_defs)
  show ?thesis
    by (simp add: animate_def completionReport_def conn an chainA_def chainB_def chainC_def
        equipmentNode_def js_truthy_def)
qed

theorem bottleneck_chain_witness:
  "animate chain_nodes (chain_edges 1 1) (Num 1) (Num 1) [] =
      Inl (map (completionReport chain_nodes (chain_edges 1 1)) chain_nodes)
    \<and> map (\<lambda>n. (node_id n, bottleneck (completionReport chain_nodes (chain_edges 1 1) n)))
          [chainA, chainB, chainC]
        = [(''A'', True), (''B'', False), (''C'', False)]
    \<and> utilization (completionReport chain_nodes (chain_edges 1 1) chainA) = Num 100"
proof -
  have h1: "(0::rat) < 1" by simp
  have h3: "chain_nodes = [chainA, chainB, chainC] \<or> chain_nodes = [chainA, chainC, chainB]
       \<or> chain_nodes = [chainB, chainA, chainC] \<or> chain_nodes = [chainB, chainC, chainA]
       \<or> chain_nodes = [chainC, chainA, chainB] \<or> chain_nodes = [chainC, chainB, chainA]"
    by (simp add: chain_nodes_def)
  have h4: "chain_edges 1 1 = chain_edges 1 1 \<or> chain_edges 1 1 = rev (chain_edges 1 1)"
    by simp
  show ?thesis
    using bottleneck_chain [OF h1 h1 h3 h4, of "Num 1" "Num 1"] by simp
qed

end
